theory Spec2Isabelle
  imports Main "HOL-Library.AList"
begin

section \<open>Python values, exceptions and string operations\<close>

text \<open>
  The filter backend works on query-string values (\<open>str\<close>, or \<open>int\<close> after the internal
  \<open>__int\<close> coercion) and produces typed Python values. Exceptions are values of the
  type \<open>exn\<close>; a function that may raise returns \<open>exn + 'a\<close>. An exception carries
  its first argument (\<open>e.args[0]\<close>, or \<open>e.messages\<close> for a \<open>ValidationError\<close>); an
  \<open>AttributeError\<close> carries the name of the missing attribute.
\<close>

datatype param = PStr string | PInt int

datatype pyval = VStr string | VInt int | VBool bool | VNone | VList "pyval list"

datatype exn =
    ParseError string
  | ValueError string
  | TypeError string
  | FieldError string
  | FieldDoesNotExist string
  | ValidationError "string list"
  | AttributeError string
  | IndexError string
  | AssertionError
  | StopIteration

fun unparam :: "param \<Rightarrow> pyval" where
  "unparam (PStr s) = VStr s"
| "unparam (PInt n) = VInt n"

text \<open>\<open>s.startswith(p)\<close>, \<open>s.endswith(p)\<close> and \<open>p in s\<close> on strings.\<close>

definition startswith :: "string \<Rightarrow> string \<Rightarrow> bool" where
  "startswith s p = (take (length p) s = p)"

definition endswith :: "string \<Rightarrow> string \<Rightarrow> bool" where
  "endswith s p = (length p \<le> length s \<and> drop (length s - length p) s = p)"

fun str_in :: "string \<Rightarrow> string \<Rightarrow> bool" where
  "str_in p [] = (p = [])"
| "str_in p (c # cs) = (startswith (c # cs) p \<or> str_in p cs)"

text \<open>\<open>s.rfind(p)\<close>: the highest index at which \<open>p\<close> starts in \<open>s\<close>.\<close>

fun rfind :: "string \<Rightarrow> string \<Rightarrow> nat option" where
  "rfind [] p = (if p = [] then Some 0 else None)"
| "rfind (c # cs) p =
     (case rfind cs p of
        Some i \<Rightarrow> Some (Suc i)
      | None \<Rightarrow> if startswith (c # cs) p then Some 0 else None)"

text \<open>\<open>s.rsplit(sep, 1)\<close> for a non-empty separator: cut at the last occurrence.\<close>

definition rsplit1 :: "string \<Rightarrow> string \<Rightarrow> string list" where
  "rsplit1 s sep =
     (case rfind s sep of
        None \<Rightarrow> [s]
      | Some i \<Rightarrow> [take i s, drop (i + length sep) s])"

text \<open>
  \<open>s.split(sep)\<close> for a non-empty separator, scanning from the left; \<open>k\<close> counts the
  characters of a matched separator that are still to be skipped.
\<close>

fun split_go :: "string \<Rightarrow> nat \<Rightarrow> string \<Rightarrow> string \<Rightarrow> string list" where
  "split_go sep k cur [] = [cur]"
| "split_go sep k cur (c # cs) =
     (if 0 < k then split_go sep (k - 1) cur cs
      else if startswith (c # cs) sep then cur # split_go sep (length sep - 1) [] cs
      else split_go sep 0 (cur @ [c]) cs)"

definition split :: "string \<Rightarrow> string \<Rightarrow> string list" where
  "split s sep = split_go sep 0 [] s"

text \<open>\<open>s.replace(old, new)\<close>: every non-overlapping occurrence, from the left.\<close>

fun replace_go :: "string \<Rightarrow> string \<Rightarrow> nat \<Rightarrow> string \<Rightarrow> string" where
  "replace_go old new k [] = []"
| "replace_go old new k (c # cs) =
     (if 0 < k then replace_go old new (k - 1) cs
      else if startswith (c # cs) old then new @ replace_go old new (length old - 1) cs
      else c # replace_go old new 0 cs)"

definition replace :: "string \<Rightarrow> string \<Rightarrow> string \<Rightarrow> string" where
  "replace s old new =
     (if old = [] then new @ concat (map (\<lambda>c. c # new) s)
      else replace_go old new 0 s)"

text \<open>\<open>s.lower()\<close> on ASCII letters and the test behind \<open>s.encode("ascii")\<close>.\<close>

definition lower_char :: "char \<Rightarrow> char" where
  "lower_char c =
     (let n = (of_char c :: nat) in if 65 \<le> n \<and> n \<le> 90 then char_of (n + 32) else c)"

definition lower :: "string \<Rightarrow> string" where
  "lower s = map lower_char s"

definition is_ascii :: "string \<Rightarrow> bool" where
  "is_ascii s = list_all (\<lambda>c. (of_char c :: nat) < 128) s"

text \<open>\<open>str(n)\<close> for an integer, and \<open>force_str\<close> on a query value.\<close>

fun str_of_nat :: "nat \<Rightarrow> string" where
  "str_of_nat n =
     (if n < 10 then [char_of (48 + n)]
      else str_of_nat (n div 10) @ [char_of (48 + n mod 10)])"

definition str_of_int :: "int \<Rightarrow> string" where
  "str_of_int i = (if i < 0 then CHR ''-'' # str_of_nat (nat (- i)) else str_of_nat (nat i))"

fun force_str :: "param \<Rightarrow> string" where
  "force_str (PStr s) = s"
| "force_str (PInt n) = str_of_int n"

section \<open>Fields, models and the library environment\<close>

text \<open>
  A field is classified by the class the backend tests with \<open>isinstance\<close>. Its
  \<open>to_python\<close> is Django's converter; \<open>related_model\<close> is \<open>None\<close> when the attribute
  is absent or empty and otherwise lists the names of \<open>related_model._meta.fields\<close>,
  which is all the backend reads of the related model.
\<close>

datatype field_kind =
    BooleanField | CharField | TextField | IntegerField | JSONField
  | ForeignKey | ManyToManyField | ForeignObjectRel | GenericForeignKey | OtherField

record field =
  name :: string
  kind :: field_kind
  to_python :: "param \<Rightarrow> exn + pyval"
  related_model :: "string list option"

text \<open>
  A model: \<open>_meta.object_name\<close>, the optional capability \<open>accessible_pk_qs(user, role)\<close>
  and the schema resolver \<open>get_fields_from_path(model, path, treat_jsonfield_as_text)\<close>
  of \<open>ansible_base.rest_filters.utils\<close>, taken as a parameter of the model.
\<close>

record model =
  object_name :: string
  accessible_pk_qs :: "(string \<Rightarrow> string \<Rightarrow> pyval) option"
  get_fields_from_path :: "string \<Rightarrow> bool \<Rightarrow> exn + (field list \<times> string)"

text \<open>
  Library functions and settings the backend calls: the builtin \<open>int\<close> on a string,
  \<open>to_python_boolean\<close> of \<open>ansible_base.lib.utils.validation\<close>, \<open>re.compile\<close> (the
  message of \<open>re.error\<close>, if the pattern does not compile), \<open>json.dumps\<close> on a list of
  messages and the setting \<open>ANSIBLE_BASE_REST_FILTERS_RESERVED_NAMES\<close>.
\<close>

record env =
  py_int :: "string \<Rightarrow> exn + int"
  to_python_boolean :: "param \<Rightarrow> exn + pyval"
  re_compile :: "string \<Rightarrow> string option"
  json_dumps :: "string list \<Rightarrow> string"
  ANSIBLE_BASE_REST_FILTERS_RESERVED_NAMES :: "string list"

section \<open>FieldLookupBackend\<close>

definition SUPPORTED_LOOKUPS :: "string list" where
  "SUPPORTED_LOOKUPS =
     [''exact'', ''iexact'', ''contains'', ''icontains'', ''startswith'', ''istartswith'',
      ''endswith'', ''iendswith'', ''regex'', ''iregex'', ''gt'', ''gte'', ''lt'', ''lte'',
      ''in'', ''isnull'', ''search'']"

definition NO_DUPLICATES_ALLOW_LIST :: "field_kind list" where
  "NO_DUPLICATES_ALLOW_LIST = [CharField, IntegerField, BooleanField, TextField]"

definition TREAT_JSONFIELD_AS_TEXT :: bool where
  "TREAT_JSONFIELD_AS_TEXT = True"

text \<open>
  The first lines of \<open>get_fields_from_lookup\<close>: the lookup is cut into the path and the
  operator suffix.
\<close>

definition split_lookup :: "string \<Rightarrow> string \<times> string" where
  "split_lookup lookup =
     (if str_in ''__'' lookup \<and> last (rsplit1 lookup ''__'') \<in> set SUPPORTED_LOOKUPS
      then (hd (rsplit1 lookup ''__''), last (rsplit1 lookup ''__''))
      else (lookup, ''exact''))"

definition get_fields_from_lookup :: "model \<Rightarrow> string \<Rightarrow> exn + (field list \<times> string)" where
  "get_fields_from_lookup m lookup =
     (case split_lookup lookup of (path, suffix) \<Rightarrow>
        if path = [] then Inl (ParseError ''Query string field name not provided.'')
        else (case get_fields_from_path m path TREAT_JSONFIELD_AS_TEXT of
                Inl e \<Rightarrow> Inl e
              | Inr (field_list, new_path) \<Rightarrow> Inr (field_list, new_path @ ''__'' @ suffix)))"

definition to_python_related :: "env \<Rightarrow> param \<Rightarrow> exn + pyval" where
  "to_python_related E v =
     (let s = force_str v in
      if lower s \<in> {''none'', ''null''} then Inr VNone
      else (case py_int E s of Inl e \<Rightarrow> Inl e | Inr n \<Rightarrow> Inr (VInt n)))"

definition value_to_python_for_field :: "env \<Rightarrow> field \<Rightarrow> param \<Rightarrow> exn + pyval" where
  "value_to_python_for_field E f v =
     (if kind f = BooleanField then to_python_boolean E v
      else if kind f \<in> {ForeignObjectRel, ManyToManyField, GenericForeignKey, ForeignKey} then
        (case to_python_related E v of
           Inl (ValueError _) \<Rightarrow>
             Inl (ParseError (''Invalid '' @ name f @ '' id: '' @ force_str v))
         | r \<Rightarrow> r)
      else to_python f v)"

text \<open>The loop of the \<open>__in\<close> branch: convert the items in order, stop at the first error.\<close>

fun convert_items :: "env \<Rightarrow> field \<Rightarrow> string list \<Rightarrow> exn + pyval list" where
  "convert_items E f [] = Inr []"
| "convert_items E f (item # rest) =
     (case value_to_python_for_field E f (PStr item) of
        Inl e \<Rightarrow> Inl e
      | Inr v \<Rightarrow> (case convert_items E f rest of Inl e \<Rightarrow> Inl e | Inr vs \<Rightarrow> Inr (v # vs)))"

definition SEARCH_FIELDS :: "string list" where
  "SEARCH_FIELDS =
     [''username'', ''first_name'', ''last_name'', ''email'', ''name'', ''description'',
      ''playbook'']"

text \<open>
  The second component of the result of \<open>value_to_python\<close>: one lookup, or (for a
  search) the list of lookups.
\<close>

datatype lookup_res = Lookup string | Lookups "string list"

definition value_to_python ::
  "env \<Rightarrow> model \<Rightarrow> string \<Rightarrow> param \<Rightarrow> exn + (pyval \<times> lookup_res \<times> bool)" where
  "value_to_python E m lookup v =
     (if \<not> is_ascii lookup then
        Inl (ValueError (lookup @ '' is not an allowed field name. Must be ascii encodable.''))
      else case get_fields_from_lookup m lookup of
        Inl e \<Rightarrow> Inl e
      | Inr (field_list, new_lookup) \<Rightarrow>
          if field_list = [] then Inl (IndexError ''list index out of range'')
          else
            let f = last field_list;
                needs_distinct =
                  (\<not> list_all (\<lambda>f. kind f \<in> set NO_DUPLICATES_ALLOW_LIST) field_list)
            in
            if startswith new_lookup ''polymorphic_ctype__model'' then
              (case v of
                 PStr s \<Rightarrow> Inr (VStr (replace s ''_'' []), Lookup new_lookup, needs_distinct)
               | PInt _ \<Rightarrow> Inl (AttributeError ''replace''))
            else if endswith new_lookup ''__isnull'' then
              (case to_python_boolean E v of
                 Inl e \<Rightarrow> Inl e
               | Inr b \<Rightarrow> Inr (b, Lookup new_lookup, needs_distinct))
            else if endswith new_lookup ''__in'' then
              (case v of
                 PStr s \<Rightarrow>
                   if s = [] then Inl (ValueError ''cannot provide empty value for __in'')
                   else (case convert_items E f (split s '','') of
                           Inl e \<Rightarrow> Inl e
                         | Inr items \<Rightarrow> Inr (VList items, Lookup new_lookup, needs_distinct))
               | PInt n \<Rightarrow>
                   if n = 0 then Inl (ValueError ''cannot provide empty value for __in'')
                   else Inl (AttributeError ''split''))
            else if endswith new_lookup ''__regex'' \<or> endswith new_lookup ''__iregex'' then
              (case v of
                 PStr s \<Rightarrow>
                   (case re_compile E s of
                      Some msg \<Rightarrow> Inl (ValueError msg)
                    | None \<Rightarrow> Inr (VStr s, Lookup new_lookup, needs_distinct))
               | PInt _ \<Rightarrow> Inl (TypeError ''first argument must be string or compiled pattern''))
            else if endswith new_lookup ''__iexact'' then
              (if kind f \<notin> {CharField, TextField}
                  \<and> \<not> (kind f = JSONField \<and> \<not> TREAT_JSONFIELD_AS_TEXT) then
                 Inl (ValueError (name f
                   @ '' is not a text field and cannot be filtered by case-insensitive search''))
               else Inr (unparam v, Lookup new_lookup, needs_distinct))
            else if endswith new_lookup ''__search'' then
              (case related_model f of
                 None \<Rightarrow>
                   Inl (ValueError (take (length new_lookup - 8) new_lookup @ '' is not searchable''))
               | Some rm_fields \<Rightarrow>
                   Inr (unparam v,
                        Lookups (map (\<lambda>rm_name. take (length new_lookup - 8) new_lookup
                                        @ ''__'' @ rm_name @ ''__icontains'')
                                   (filter (\<lambda>rm_name. rm_name \<in> set SEARCH_FIELDS) rm_fields)),
                        needs_distinct))
            else
              (case value_to_python_for_field E f v of
                 Inl e \<Rightarrow> Inl e
               | Inr v' \<Rightarrow>
                   Inr (v',
                        Lookup (if TREAT_JSONFIELD_AS_TEXT \<and> kind f = JSONField
                                then replace new_lookup (name f) (name f @ ''_as_txt'')
                                else new_lookup),
                        needs_distinct)))"

section \<open>filter_queryset\<close>

text \<open>
  Django's \<open>Q\<close> objects as the backend builds them: \<open>Q()\<close>, \<open>Q(**{k: v})\<close>, \<open>~q\<close> and
  \<open>q | r\<close>, where \<open>|\<close> returns the other operand when one of them is empty.
\<close>

datatype q = Q_empty | Q_leaf string pyval | Q_not q | Q_or q q

fun combine_or :: "q \<Rightarrow> q \<Rightarrow> q" where
  "combine_or Q_empty other = other"
| "combine_or self Q_empty = self"
| "combine_or self other = Q_or self other"

text \<open>The calls made on the queryset, in order.\<close>

datatype qs_op = Annotate string string | Filter "q list" | Distinct

record queryset =
  model :: model
  ops :: "qs_op list"

record request =
  query_params :: "(string \<times> string list) list"
  user :: string

record view =
  rest_filters_reserved_names :: "string list option"

definition reserved_names :: "env \<Rightarrow> view \<Rightarrow> string set" where
  "reserved_names E vw =
     set (ANSIBLE_BASE_REST_FILTERS_RESERVED_NAMES E)
       \<union> (case rest_filters_reserved_names vw of None \<Rightarrow> {} | Some l \<Rightarrow> set l)"

text \<open>
  The local variables of \<open>filter_queryset\<close>. Each entry of the first three lists is
  \<open>(negate, field, value)\<close>; \<open>search_filters\<close> is a dict, kept in insertion order.
\<close>

type_synonym triple = "bool \<times> lookup_res \<times> pyval"

datatype relation = REL_AND | REL_OR

record fstate =
  and_filters :: "triple list"
  or_filters :: "triple list"
  chain_filters :: "triple list"
  role_filters :: "string list"
  search_filters :: "(pyval \<times> string list) list"
  needs_distinct :: bool
  search_filter_relation :: relation
  queryset_ops :: "qs_op list"

definition initial_state :: "qs_op list \<Rightarrow> fstate" where
  "initial_state qs =
     \<lparr>and_filters = [], or_filters = [], chain_filters = [], role_filters = [],
      search_filters = [], needs_distinct = False, search_filter_relation = REL_OR,
      queryset_ops = qs\<rparr>"

text \<open>The prefixes \<open>chain__\<close> / \<open>or__\<close> (mutually exclusive), then \<open>not__\<close>.\<close>

definition parse_prefixes :: "string \<Rightarrow> bool \<times> bool \<times> bool \<times> string" where
  "parse_prefixes key =
     (let q_chain = startswith key ''chain__'';
          q_or = (\<not> q_chain \<and> startswith key ''or__'');
          key1 = (if q_chain then drop 7 key else if q_or then drop 4 key else key);
          q_not = startswith key1 ''not__'';
          key2 = (if q_not then drop 5 key1 else key1)
      in (q_chain, q_or, q_not, key2))"

text \<open>The annotation of a JSON field read as text.\<close>

definition annotate_as_txt :: "lookup_res \<Rightarrow> qs_op list \<Rightarrow> exn + qs_op list" where
  "annotate_as_txt new_key qs =
     (case new_key of
        Lookup s \<Rightarrow>
          if str_in ''_as_txt'' s then
            (case filter (\<lambda>item. endswith item ''_as_txt'') (split s ''__'') of
               [] \<Rightarrow> Inl StopIteration
             | fname # _ \<Rightarrow> Inr (qs @ [Annotate fname (take (length fname - 7) fname)]))
          else Inr qs
      | Lookups l \<Rightarrow> if ''_as_txt'' \<in> set l then Inl (AttributeError ''split'') else Inr qs)"

definition route :: "bool \<Rightarrow> bool \<Rightarrow> triple \<Rightarrow> fstate \<Rightarrow> fstate" where
  "route q_chain q_or t st =
     (if q_chain then st\<lparr>chain_filters := chain_filters st @ [t]\<rparr>
      else if q_or then st\<lparr>or_filters := or_filters st @ [t]\<rparr>
      else st\<lparr>and_filters := and_filters st @ [t]\<rparr>)"

text \<open>One round of the loop \<open>for value in values\<close> of an ordinary filter.\<close>

definition convert_value ::
  "env \<Rightarrow> model \<Rightarrow> bool \<Rightarrow> bool \<Rightarrow> bool \<Rightarrow> bool \<Rightarrow> string \<Rightarrow> string \<Rightarrow> fstate \<Rightarrow> exn + fstate" where
  "convert_value E m q_int q_chain q_or q_not key v st =
     (case (if q_int then (case py_int E v of Inl e \<Rightarrow> Inl e | Inr n \<Rightarrow> Inr (PInt n))
            else Inr (PStr v)) of
        Inl e \<Rightarrow> Inl e
      | Inr pv \<Rightarrow>
          (case value_to_python E m key pv of
             Inl e \<Rightarrow> Inl e
           | Inr (v', new_key, dist) \<Rightarrow>
               (case annotate_as_txt new_key (queryset_ops st) of
                  Inl e \<Rightarrow> Inl e
                | Inr qs \<Rightarrow>
                    Inr (route q_chain q_or (q_not, new_key, v')
                           (st\<lparr>needs_distinct := (dist \<or> needs_distinct st),
                               queryset_ops := qs\<rparr>)))))"

fun convert_values ::
  "env \<Rightarrow> model \<Rightarrow> bool \<Rightarrow> bool \<Rightarrow> bool \<Rightarrow> bool \<Rightarrow> string \<Rightarrow> string list \<Rightarrow> fstate \<Rightarrow> exn + fstate" where
  "convert_values E m q_int q_chain q_or q_not key [] st = Inr st"
| "convert_values E m q_int q_chain q_or q_not key (v # rest) st =
     (case convert_value E m q_int q_chain q_or q_not key v st of
        Inl e \<Rightarrow> Inl e
      | Inr st' \<Rightarrow> convert_values E m q_int q_chain q_or q_not key rest st')"

text \<open>One round of the loop \<open>for value in values\<close> of a search, and the loop.\<close>

definition search_value ::
  "env \<Rightarrow> model \<Rightarrow> string \<Rightarrow> string \<Rightarrow> (pyval \<times> string list) list
     \<Rightarrow> exn + (pyval \<times> string list) list" where
  "search_value E m key v sf =
     (case value_to_python E m key (PStr v) of
        Inl e \<Rightarrow> Inl e
      | Inr (sv, new_keys, _) \<Rightarrow>
          (case new_keys of
             Lookup _ \<Rightarrow> Inl AssertionError
           | Lookups l \<Rightarrow> Inr (AList.update sv l sf)))"

fun search_values ::
  "env \<Rightarrow> model \<Rightarrow> string \<Rightarrow> string list \<Rightarrow> (pyval \<times> string list) list
     \<Rightarrow> exn + (pyval \<times> string list) list" where
  "search_values E m key [] sf = Inr sf"
| "search_values E m key (v # rest) sf =
     (case search_value E m key v sf of
        Inl e \<Rightarrow> Inl e
      | Inr sf' \<Rightarrow> search_values E m key rest sf')"

text \<open>The body of the loop over \<open>request.query_params.lists()\<close>.\<close>

definition process_param ::
  "env \<Rightarrow> model \<Rightarrow> string set \<Rightarrow> string \<times> string list \<Rightarrow> fstate \<Rightarrow> exn + fstate" where
  "process_param E m reserved kv st =
     (case kv of (key0, vals) \<Rightarrow>
        if key0 \<in> reserved then Inr st
        else
          let key1 = (if object_name m = ''User'' \<and> startswith key0 ''created''
                      then replace key0 ''created'' ''date_joined'' else key0);
              job_event = (object_name m = ''JobEvent'' \<and> startswith key1 ''hosts__name'');
              key2 = (if job_event then replace key1 ''hosts__name'' ''or__host__name'' else key1);
              st1 = (if job_event
                     then st\<lparr>or_filters :=
                            or_filters st @ [(False, Lookup ''host__name__isnull'', VBool True)]\<rparr>
                     else st);
              q_int = endswith key2 ''__int'';
              key3 = (if q_int then take (length key2 - 5) key2 else key2)
          in
          if key3 = ''role_level'' then
            (case vals of
               [] \<Rightarrow> Inl (IndexError ''list index out of range'')
             | v # _ \<Rightarrow> Inr (st1\<lparr>role_filters := role_filters st1 @ [v]\<rparr>))
          else if endswith key3 ''__search'' then
            (let comma = (vals \<noteq> [] \<and> str_in '','' (hd vals));
                 st2 = (if comma then st1\<lparr>search_filter_relation := REL_AND\<rparr> else st1);
                 terms = (if comma then concat (map (\<lambda>i. split i '','') vals) else vals)
             in case search_values E m key3 terms (search_filters st2) of
                  Inl e \<Rightarrow> Inl e
                | Inr sf \<Rightarrow> Inr (st2\<lparr>search_filters := sf, needs_distinct := True\<rparr>))
          else
            (case parse_prefixes key3 of
               (q_chain, q_or, q_not, key4) \<Rightarrow>
                 convert_values E m q_int q_chain q_or q_not key4 vals st1))"

fun loop ::
  "env \<Rightarrow> model \<Rightarrow> string set \<Rightarrow> (string \<times> string list) list \<Rightarrow> fstate \<Rightarrow> exn + fstate" where
  "loop E m reserved [] st = Inr st"
| "loop E m reserved (kv # rest) st =
     (case process_param E m reserved kv st of
        Inl e \<Rightarrow> Inl e
      | Inr st' \<Rightarrow> loop E m reserved rest st')"

text \<open>
  The second half of \<open>filter_queryset\<close>: the \<open>Q\<close> objects are built from the lists.
  \<open>Q(**{k: v})\<close> needs a string for \<open>k\<close>.
\<close>

definition mk_Q :: "lookup_res \<Rightarrow> pyval \<Rightarrow> exn + q" where
  "mk_Q k v =
     (case k of
        Lookup s \<Rightarrow> Inr (Q_leaf s v)
      | Lookups _ \<Rightarrow> Inl (TypeError (''unhashable type: '' @ [CHR 0x27] @ ''list'' @ [CHR 0x27])))"

definition triple_Q :: "triple \<Rightarrow> exn + q" where
  "triple_Q t =
     (case t of (n, k, v) \<Rightarrow>
        (case mk_Q k v of Inl e \<Rightarrow> Inl e | Inr x \<Rightarrow> Inr (if n then Q_not x else x)))"

fun and_args :: "triple list \<Rightarrow> exn + q list" where
  "and_args [] = Inr []"
| "and_args (t # ts) =
     (case triple_Q t of
        Inl e \<Rightarrow> Inl e
      | Inr x \<Rightarrow> (case and_args ts of Inl e \<Rightarrow> Inl e | Inr xs \<Rightarrow> Inr (x # xs)))"

fun role_args :: "model \<Rightarrow> string \<Rightarrow> string list \<Rightarrow> exn + q list" where
  "role_args m usr [] = Inr []"
| "role_args m usr (role_name # rest) =
     (case accessible_pk_qs m of
        None \<Rightarrow>
          Inl (ParseError (''Cannot apply role_level filter to this list because its model ''
                 @ ''does not use roles for access control.''))
      | Some accessible \<Rightarrow>
          (case role_args m usr rest of
             Inl e \<Rightarrow> Inl e
           | Inr xs \<Rightarrow> Inr (Q_leaf ''pk__in'' (accessible usr role_name) # xs)))"

fun or_Q :: "q \<Rightarrow> triple list \<Rightarrow> exn + q" where
  "or_Q x [] = Inr x"
| "or_Q x (t # ts) =
     (case triple_Q t of Inl e \<Rightarrow> Inl e | Inr y \<Rightarrow> or_Q (combine_or x y) ts)"

definition constrains_Q :: "q \<Rightarrow> pyval \<times> string list \<Rightarrow> q" where
  "constrains_Q x entry =
     (case entry of (search_term, constrains) \<Rightarrow>
        foldl (\<lambda>y constrain. combine_or y (Q_leaf constrain search_term)) x constrains)"

definition search_or_Q :: "(pyval \<times> string list) list \<Rightarrow> q" where
  "search_or_Q sf = foldl constrains_Q Q_empty sf"

definition search_and_ops :: "(pyval \<times> string list) list \<Rightarrow> qs_op list" where
  "search_and_ops sf = map (\<lambda>entry. Filter [constrains_Q Q_empty entry]) sf"

fun chain_ops :: "triple list \<Rightarrow> exn + qs_op list" where
  "chain_ops [] = Inr []"
| "chain_ops (t # ts) =
     (case triple_Q t of
        Inl e \<Rightarrow> Inl e
      | Inr x \<Rightarrow> (case chain_ops ts of Inl e \<Rightarrow> Inl e | Inr xs \<Rightarrow> Inr (Filter [x] # xs)))"

definition build_queryset :: "model \<Rightarrow> string \<Rightarrow> fstate \<Rightarrow> exn + qs_op list" where
  "build_queryset m usr st =
     (if and_filters st \<noteq> [] \<or> or_filters st \<noteq> [] \<or> chain_filters st \<noteq> []
         \<or> role_filters st \<noteq> [] \<or> search_filters st \<noteq> [] then
        (case and_args (and_filters st) of
           Inl e \<Rightarrow> Inl e
         | Inr args1 \<Rightarrow>
        (case role_args m usr (role_filters st) of
           Inl e \<Rightarrow> Inl e
         | Inr args2 \<Rightarrow>
        (case (if or_filters st \<noteq> []
               then (case or_Q Q_empty (or_filters st) of Inl e \<Rightarrow> Inl e | Inr x \<Rightarrow> Inr [x])
               else Inr []) of
           Inl e \<Rightarrow> Inl e
         | Inr args3 \<Rightarrow>
        (let args4 = (if search_filters st \<noteq> [] \<and> search_filter_relation st = REL_OR
                      then [search_or_Q (search_filters st)] else []);
             ops1 = (if search_filters st \<noteq> [] \<and> search_filter_relation st = REL_AND
                     then search_and_ops (search_filters st) else [])
         in case chain_ops (chain_filters st) of
              Inl e \<Rightarrow> Inl e
            | Inr ops2 \<Rightarrow>
                Inr (queryset_ops st @ ops1 @ ops2
                       @ [Filter (args1 @ args2 @ args3 @ args4)]
                       @ (if needs_distinct st then [Distinct] else []))))))
      else Inr (queryset_ops st))"

text \<open>The two \<open>except\<close> clauses that close \<open>filter_queryset\<close>.\<close>

fun handle_exn :: "env \<Rightarrow> exn \<Rightarrow> exn" where
  "handle_exn E (FieldError a) = ParseError a"
| "handle_exn E (FieldDoesNotExist a) = ParseError a"
| "handle_exn E (ValueError a) = ParseError a"
| "handle_exn E (TypeError a) = ParseError a"
| "handle_exn E (ValidationError messages) = ParseError (json_dumps E messages)"
| "handle_exn E e = e"

definition filter_queryset :: "env \<Rightarrow> request \<Rightarrow> queryset \<Rightarrow> view \<Rightarrow> exn + queryset" where
  "filter_queryset E req qs vw =
     (case loop E (model qs) (reserved_names E vw) (query_params req) (initial_state (ops qs)) of
        Inl e \<Rightarrow> Inl (handle_exn E e)
      | Inr st \<Rightarrow>
          (case build_queryset (model qs) (user req) st of
             Inl e \<Rightarrow> Inl (handle_exn E e)
           | Inr new_ops \<Rightarrow> Inr (qs\<lparr>ops := new_ops\<rparr>)))"

section \<open>A concrete environment and schema\<close>

text \<open>
  To run the backend on concrete requests the parameters are instantiated: \<open>int\<close> on
  decimal literals with an optional minus sign, the boolean parser on the words it
  accepts, a \<open>re.compile\<close> that accepts every pattern, and a model given by the table of
  the paths its resolver knows.
\<close>

fun digits_value :: "string \<Rightarrow> nat \<Rightarrow> nat option" where
  "digits_value [] acc = Some acc"
| "digits_value (c # cs) acc =
     (let n = (of_char c :: nat) in
      if 48 \<le> n \<and> n \<le> 57 then digits_value cs (10 * acc + (n - 48)) else None)"

definition decimal_int :: "string \<Rightarrow> exn + int" where
  "decimal_int s =
     (case s of
        [] \<Rightarrow> Inl (ValueError ''invalid literal for int() with base 10'')
      | c # cs \<Rightarrow>
          if c = CHR ''-'' \<and> cs \<noteq> [] then
            (case digits_value cs 0 of
               None \<Rightarrow> Inl (ValueError ''invalid literal for int() with base 10'')
             | Some n \<Rightarrow> Inr (- int n))
          else
            (case digits_value s 0 of
               None \<Rightarrow> Inl (ValueError ''invalid literal for int() with base 10'')
             | Some n \<Rightarrow> Inr (int n)))"

definition boolean_words :: "param \<Rightarrow> exn + pyval" where
  "boolean_words v =
     (let s = lower (force_str v) in
      if s \<in> {''true'', ''1'', ''t''} then Inr (VBool True)
      else if s \<in> {''false'', ''0'', ''f''} then Inr (VBool False)
      else Inl (ValueError (''Unable to convert '' @ force_str v @ '' to boolean'')))"

definition example_env :: env where
  "example_env =
     \<lparr>py_int = decimal_int, to_python_boolean = boolean_words, re_compile = (\<lambda>_. None),
      json_dumps = concat,
      ANSIBLE_BASE_REST_FILTERS_RESERVED_NAMES = [''page'', ''page_size'', ''order_by'']\<rparr>"

definition char_field :: "string \<Rightarrow> field" where
  "char_field n =
     \<lparr>name = n, kind = CharField, to_python = (\<lambda>v. Inr (VStr (force_str v))),
      related_model = None\<rparr>"

definition integer_field :: "string \<Rightarrow> field" where
  "integer_field n =
     \<lparr>name = n, kind = IntegerField,
      to_python = (\<lambda>v. case v of
                          PInt i \<Rightarrow> Inr (VInt i)
                        | PStr s \<Rightarrow> (case decimal_int s of
                                      Inl _ \<Rightarrow> Inl (ValidationError [s @ '' value must be an integer.''])
                                    | Inr i \<Rightarrow> Inr (VInt i))),
      related_model = None\<rparr>"

definition foreign_key :: "string \<Rightarrow> string list \<Rightarrow> field" where
  "foreign_key n rm_fields =
     \<lparr>name = n, kind = ForeignKey, to_python = (\<lambda>v. Inr (unparam v)),
      related_model = Some rm_fields\<rparr>"

definition table_model ::
  "string \<Rightarrow> (string \<times> field list) list \<Rightarrow> (string \<Rightarrow> string \<Rightarrow> pyval) option \<Rightarrow> model" where
  "table_model nm table acc =
     \<lparr>object_name = nm, accessible_pk_qs = acc,
      get_fields_from_path =
        (\<lambda>path _. case map_of table path of
                     None \<Rightarrow> Inl (FieldDoesNotExist (nm @ '' has no field named '' @ path))
                   | Some fl \<Rightarrow> Inr (fl, path))\<rparr>"

definition example_table :: "(string \<times> field list) list" where
  "example_table =
     [(''name'', [char_field ''name'']),
      (''count'', [integer_field ''count'']),
      (''created'', [char_field ''created'']),
      (''date_joined'', [char_field ''date_joined'']),
      (''chain__name'', [foreign_key ''chain'' [''id'', ''name''], char_field ''name'']),
      (''organization'',
         [foreign_key ''organization'' [''id'', ''name'', ''description'', ''created'']]),
      (''organization__name'',
         [foreign_key ''organization'' [''id'', ''name'', ''description'', ''created''],
          char_field ''name'']),
      (''polymorphic_ctype__model'',
         [foreign_key ''polymorphic_ctype'' [''id'', ''app_label'', ''model''],
          char_field ''model''])]"

definition example_model :: "string \<Rightarrow> model" where
  "example_model nm = table_model nm example_table (Some (\<lambda>usr role_name. VList [VStr usr, VStr role_name]))"

definition no_roles_model :: "string \<Rightarrow> model" where
  "no_roles_model nm = table_model nm example_table None"

section \<open>Token authentication\<close>

text \<open>
  The modules \<open>ansible_base.jwt_consumer.common.auth\<close> and \<open>cert\<close> are known here by
  their tests only, so the key resolution protocol and the mapping of user fields are
  modelled from sections 4.2 to 4.4 of the specification. The token validator and the
  fetching of a key from its source are parameters.
\<close>











text \<open>Modelled from the spec: the principal of \<open>UserProvisioner.mapFields\<close> (section
  4.4), absent from the sources: the fields of the user record, the number of
  persistence calls made on it and the log of saves.\<close>

record principal =
  user_fields :: "string \<rightharpoonup> string"
  saves :: nat
  save_log :: "string list"

text \<open>Modelled from the spec: a mapped field present in both the principal and the
  claims differs (section 4.4).\<close>

definition field_differs :: "principal \<Rightarrow> (string \<rightharpoonup> string) \<Rightarrow> string \<Rightarrow> bool" where
  "field_differs p claims f =
     (case (user_fields p f, claims f) of
        (Some current, Some claimed) \<Rightarrow> current \<noteq> claimed
      | _ \<Rightarrow> False)"

text \<open>Modelled from the spec: a mapped field present in both is set from the claims
  (section 4.4).\<close>

definition update_field ::
  "(string \<rightharpoonup> string) \<Rightarrow> (string \<rightharpoonup> string) \<Rightarrow> string \<Rightarrow> (string \<rightharpoonup> string)" where
  "update_field claims current f =
     (case (current f, claims f) of
        (Some _, Some claimed) \<Rightarrow> current(f \<mapsto> claimed)
      | _ \<Rightarrow> current)"

text \<open>Modelled from the spec: \<open>mapFields\<close> (section 4.4), the function
  \<open>map_user_fields\<close> that the tests call and the sources lack. If a mapped field present
  in both differs, all mapped fields are updated from the claims and the principal is
  persisted once, the save being logged with the principal's identifier; otherwise
  nothing is done.\<close>

definition map_user_fields ::
  "string list \<Rightarrow> string \<Rightarrow> principal \<Rightarrow> (string \<rightharpoonup> string) \<Rightarrow> principal" where
  "map_user_fields mapped_user_fields username p claims =
     (if list_ex (field_differs p claims) mapped_user_fields then
        p\<lparr>user_fields := foldl (update_field claims) (user_fields p) mapped_user_fields,
          saves := saves p + 1,
          save_log := save_log p @ [''Saving user '' @ username]\<rparr>
      else p)"





section \<open>Facts about the string operations\<close>

lemma rfind_Some:
  "rfind s p = Some i \<Longrightarrow> s = take i s @ p @ drop (i + length p) s"
proof (induction s arbitrary: i)
  case Nil
  then show ?case by (simp split: if_splits)
next
  case (Cons c cs)
  show ?case
  proof (cases "rfind cs p")
    case None
    with Cons.prems have st: "startswith (c # cs) p" and i0: "i = 0"
      by (simp_all split: if_splits)
    from st have "take (length p) (c # cs) = p" by (simp add: startswith_def)
    then have "c # cs = p @ drop (length p) (c # cs)"
      by (metis append_take_drop_id)
    with i0 show ?thesis by simp
  next
    case (Some j)
    with Cons.prems have i: "i = Suc j" by simp
    from Cons.IH [OF Some] have "cs = take j cs @ p @ drop (j + length p) cs" .
    with i show ?thesis by simp
  qed
qed

lemma str_in_rfind: "str_in p s \<Longrightarrow> rfind s p \<noteq> None"
  by (induction s) (auto split: option.splits)

lemma split_lookup_cases:
  "split_lookup l = (l, ''exact'')
   \<or> (l = fst (split_lookup l) @ ''__'' @ snd (split_lookup l)
       \<and> snd (split_lookup l) \<in> set SUPPORTED_LOOKUPS
       \<and> snd (split_lookup l) = last (rsplit1 l ''__''))"
proof (cases "str_in ''__'' l \<and> last (rsplit1 l ''__'') \<in> set SUPPORTED_LOOKUPS")
  case False
  then show ?thesis by (auto simp: split_lookup_def)
next
  case True
  then obtain i where i: "rfind l ''__'' = Some i"
    using str_in_rfind by blast
  from rfind_Some [OF i] have "l = take i l @ ''__'' @ drop (i + 2) l" by simp
  with True i show ?thesis
    by (simp add: split_lookup_def rsplit1_def)
qed

lemma replace_go_underscore:
  "replace_go ''_'' [] 0 s = filter (\<lambda>c. c \<noteq> CHR ''_'') s"
  by (induction s) (simp_all add: startswith_def)

lemma replace_underscore: "replace s ''_'' [] = filter (\<lambda>c. c \<noteq> CHR ''_'') s"
  by (simp add: replace_def replace_go_underscore)

lemma rfind_no_underscore: "CHR ''_'' \<notin> set s \<Longrightarrow> rfind s ''__'' = None"
  by (induction s) (auto simp: startswith_def)

lemma rfind_suffix:
  "CHR ''_'' \<notin> set sfx \<Longrightarrow> rfind (p @ ''__'' @ sfx) ''__'' = Some (length p)"
proof (induction p)
  case Nil
  then have "rfind sfx ''__'' = None" by (rule rfind_no_underscore)
  moreover from Nil have "\<not> startswith (CHR ''_'' # sfx) ''__''"
    by (cases sfx) (auto simp: startswith_def)
  ultimately show ?case by (simp add: startswith_def)
next
  case (Cons c p)
  then show ?case by simp
qed

lemma str_in_suffix: "str_in ''__'' (p @ ''__'' @ sfx)"
  by (induction p) (simp_all add: startswith_def)

lemma supported_no_underscore: "sfx \<in> set SUPPORTED_LOOKUPS \<Longrightarrow> CHR ''_'' \<notin> set sfx"
  by (auto simp: SUPPORTED_LOOKUPS_def)

lemma split_lookup_suffix:
  assumes "sfx \<in> set SUPPORTED_LOOKUPS"
  shows "split_lookup (p @ ''__'' @ sfx) = (p, sfx)"
proof -
  from assms have "rfind (p @ ''__'' @ sfx) ''__'' = Some (length p)"
    by (intro rfind_suffix supported_no_underscore)
  then have "rsplit1 (p @ ''__'' @ sfx) ''__'' = [p, sfx]"
    by (simp add: rsplit1_def)
  with assms show ?thesis
    using str_in_suffix [of p sfx] by (simp add: split_lookup_def)
qed

lemma endswith_append: "endswith (p @ s) s"
  by (simp add: endswith_def)

lemma endswith_last: "endswith s p \<Longrightarrow> p \<noteq> [] \<Longrightarrow> last s = last p"
  by (metis append_take_drop_id endswith_def last_appendR)

lemma endswith_iff: "endswith s p \<longleftrightarrow> (\<exists>q. s = q @ p)"
  by (metis append_eq_conv_conj append_take_drop_id endswith_def diff_add_inverse2 le_add2 length_append length_drop)

lemma startswith_iff: "startswith s p \<longleftrightarrow> (\<exists>q. s = p @ q)"
  by (metis append_eq_conv_conj append_take_drop_id startswith_def)

section \<open>Unfolding the concrete schema\<close>

lemmas example_defs =
  get_fields_from_lookup_def split_lookup_def rsplit1_def startswith_def endswith_def
  SUPPORTED_LOOKUPS_def example_model_def no_roles_model_def table_model_def example_table_def
  TREAT_JSONFIELD_AS_TEXT_def is_ascii_def

section \<open>Facts about the loop over the query parameters\<close>

lemma loop_append:
  "loop E m R (ps1 @ ps2) st =
     (case loop E m R ps1 st of Inl e \<Rightarrow> Inl e | Inr st' \<Rightarrow> loop E m R ps2 st')"
  by (induction ps1 arbitrary: st) (simp_all split: sum.splits)

lemma loop_raises:
  assumes "loop E m R ps1 st = Inr st1" and "process_param E m R kv st1 = Inl e"
  shows "loop E m R (ps1 @ kv # ps2) st = Inl e"
  using assms by (simp add: loop_append)

lemma filter_queryset_raises:
  assumes "query_params req = ps1 @ kv # ps2"
    and "loop E (model qs) (reserved_names E vw) ps1 (initial_state (ops qs)) = Inr st1"
    and "process_param E (model qs) (reserved_names E vw) kv st1 = Inl e"
  shows "filter_queryset E req qs vw = Inl (handle_exn E e)"
  using loop_raises [OF assms(2,3), of ps2] assms(1) by (simp add: filter_queryset_def)

lemma process_param_plain:
  assumes "key \<notin> R"
    and "\<not> (object_name m = ''User'' \<and> startswith key ''created'')"
    and "\<not> (object_name m = ''JobEvent'' \<and> startswith key ''hosts__name'')"
    and "\<not> endswith key ''__int''"
    and "key \<noteq> ''role_level''"
    and "\<not> endswith key ''__search''"
    and "parse_prefixes key = (q_chain, q_or, q_not, lookup)"
  shows "process_param E m R (key, vals) st
         = convert_values E m False q_chain q_or q_not lookup vals st"
proof -
  from assms(2) have k1: "(if object_name m = ''User'' \<and> startswith key ''created''
                      then replace key ''created'' ''date_joined'' else key) = key"
    by (rule if_not_P)
  show ?thesis
    unfolding process_param_def Let_def prod.case k1 if_not_P [OF assms(3)]
    using assms(1,4,5,6,7) by simp
qed

lemma convert_values_first_raises:
  "value_to_python E m lookup (PStr v) = Inl e \<Longrightarrow>
   convert_values E m False q_chain q_or q_not lookup (v # rest) st = Inl e"
  by (simp add: convert_value_def)

lemma convert_items_list_all2:
  "convert_items E f items = Inr vs
   \<longleftrightarrow> list_all2 (\<lambda>item v. value_to_python_for_field E f (PStr item) = Inr v) items vs"
proof (induction items arbitrary: vs)
  case Nil
  then show ?case by auto
next
  case (Cons item items)
  show ?case
  proof (cases vs)
    case Nil
    then show ?thesis by (auto split: sum.splits)
  next
    case (Cons v vs')
    with Cons.IH [of vs'] show ?thesis
      by (cases "convert_items E f items") (auto split: sum.splits)
  qed
qed

lemma parse_prefixes_endswith:
  assumes "parse_prefixes key = (q_chain, q_or, q_not, lookup)"
  shows "endswith key lookup"
proof -
  have d: "endswith s (drop n s)" for s :: string and n
    by (metis append_take_drop_id endswith_iff)
  have dd: "endswith s (drop n (drop k s))" for s :: string and n k
    using d [of s "k + n"] by (simp add: add.commute)
  from assms show ?thesis
    by (auto simp: parse_prefixes_def Let_def d dd endswith_append [of "[]", simplified]
          split: if_splits)
qed

lemma endswith_trans: "endswith a b \<Longrightarrow> endswith b c \<Longrightarrow> endswith a c"
  by (auto simp: endswith_iff)

lemma in_key_facts:
  assumes "parse_prefixes key = (q_chain, q_or, q_not, path @ ''__in'')"
  shows "\<not> endswith key ''__int''" and "key \<noteq> ''role_level''" and "\<not> endswith key ''__search''"
proof -
  have "endswith key ''__in''"
    using parse_prefixes_endswith [OF assms] endswith_append [of path "''__in''"]
    by (rule endswith_trans)
  then have l: "last key = CHR ''n''"
    using endswith_last by fastforce
  show "\<not> endswith key ''__int''"
    using l endswith_last by fastforce
  show "key \<noteq> ''role_level''" using l by auto
  show "\<not> endswith key ''__search''"
    using l endswith_last by fastforce
qed

lemma value_to_python_in:
  assumes "path \<noteq> []" and "is_ascii (path @ ''__in'')"
    and "get_fields_from_path m path TREAT_JSONFIELD_AS_TEXT = Inr (field_list, new_path)"
    and "field_list \<noteq> []"
    and "\<not> startswith (new_path @ ''__in'') ''polymorphic_ctype__model''"
  shows "value_to_python E m (path @ ''__in'') (PStr s) =
           (if s = [] then Inl (ValueError ''cannot provide empty value for __in'')
            else case convert_items E (last field_list) (split s '','') of
                   Inl e \<Rightarrow> Inl e
                 | Inr items \<Rightarrow>
                     Inr (VList items, Lookup (new_path @ ''__in''),
                          \<not> list_all (\<lambda>f. kind f \<in> set NO_DUPLICATES_ALLOW_LIST) field_list))"
proof -
  have sp: "split_lookup (path @ ''__in'') = (path, ''in'')"
    using split_lookup_suffix [of "''in''" path] by (simp add: SUPPORTED_LOOKUPS_def)
  have g: "get_fields_from_lookup m (path @ ''__in'') = Inr (field_list, new_path @ ''__in'')"
    using assms(1,3) by (simp add: get_fields_from_lookup_def sp)
  have e1: "endswith (new_path @ ''__in'') ''__in''"
    by (rule endswith_append)
  have e2: "\<not> endswith (new_path @ ''__in'') ''__isnull''"
    using endswith_last [of "new_path @ ''__in''" "''__isnull''"] by auto
  show ?thesis
    unfolding value_to_python_def Let_def g
    using assms(2,4,5) e1 e2 by (simp split: sum.splits)
qed

lemma empty_path_lookup:
  assumes "fst (split_lookup l) = []"
  shows "l \<in> set ([] # map (\<lambda>sfx. ''__'' @ sfx) SUPPORTED_LOOKUPS)"
  using split_lookup_cases [of l] assms by auto

lemma get_fields_from_lookup_empty:
  "fst (split_lookup l) = [] \<Longrightarrow>
   get_fields_from_lookup m l = Inl (ParseError ''Query string field name not provided.'')"
  by (cases "split_lookup l") (simp add: get_fields_from_lookup_def)

lemma empty_path_ascii: "fst (split_lookup l) = [] \<Longrightarrow> is_ascii l"
  using empty_path_lookup [of l] by (auto simp: SUPPORTED_LOOKUPS_def is_ascii_def)

lemma value_to_python_empty:
  "fst (split_lookup l) = [] \<Longrightarrow>
   value_to_python E m l v = Inl (ParseError ''Query string field name not provided.'')"
  by (simp add: value_to_python_def empty_path_ascii get_fields_from_lookup_empty)

lemma parse_prefixes_key:
  assumes "parse_prefixes key = (q_chain, q_or, q_not, l)"
  shows "key \<in> set (map (\<lambda>p. p @ l)
           [[], ''not__'', ''chain__'', ''chain__not__'', ''or__'', ''or__not__''])"
proof -
  have t: "startswith s p \<Longrightarrow> n = length p \<Longrightarrow> s = p @ drop n s" for s p :: string and n
    by (metis append_take_drop_id startswith_def)
  define k1 where "k1 = (if startswith key ''chain__'' then drop 7 key
                          else if startswith key ''or__'' then drop 4 key else key)"
  have l: "l = (if startswith k1 ''not__'' then drop 5 k1 else k1)"
    using assms by (auto simp: parse_prefixes_def Let_def k1_def)
  have a: "key = k1 \<or> key = ''chain__'' @ k1 \<or> key = ''or__'' @ k1"
  proof (cases "startswith key ''chain__''")
    case True
    from t [OF True, of 7] have "key = ''chain__'' @ drop 7 key" by simp
    with True have "key = ''chain__'' @ k1" by (simp only: k1_def if_True)
    then show ?thesis by blast
  next
    case no_chain: False
    show ?thesis
    proof (cases "startswith key ''or__''")
      case True
      from t [OF True, of 4] have "key = ''or__'' @ drop 4 key" by simp
    with True no_chain have "key = ''or__'' @ k1" by (simp only: k1_def if_True if_False)
      then show ?thesis by blast
    next
      case False
      with no_chain have "key = k1" by (simp add: k1_def)
      then show ?thesis by blast
    qed
  qed
  have b: "k1 = l \<or> k1 = ''not__'' @ l"
  proof (cases "startswith k1 ''not__''")
    case True
    from t [OF True, of 5] have "k1 = ''not__'' @ drop 5 k1" by simp
    with True have "k1 = ''not__'' @ l" by (simp only: l if_True)
    then show ?thesis by blast
  next
    case False
    then have "k1 = l" by (simp add: l)
    then show ?thesis by blast
  qed
  from a b show ?thesis by auto
qed

lemma split_nonempty: "split_go sep k cur s \<noteq> []"
  by (induction s arbitrary: k cur) simp_all

lemma empty_path_keys:
  "\<forall>p \<in> set [[], ''not__'', ''chain__'', ''chain__not__'', ''or__'', ''or__not__''].
   \<forall>l \<in> set ([] # map (\<lambda>sfx. ''__'' @ sfx) SUPPORTED_LOOKUPS).
          \<not> startswith (p @ l) ''created'' \<and> \<not> startswith (p @ l) ''hosts__name''
          \<and> \<not> endswith (p @ l) ''__int'' \<and> p @ l \<noteq> ''role_level''"
  by code_simp

lemma empty_path_key_facts:
  assumes "parse_prefixes key = (q_chain, q_or, q_not, l)" and "fst (split_lookup l) = []"
  shows "\<not> startswith key ''created'' \<and> \<not> startswith key ''hosts__name''
         \<and> \<not> endswith key ''__int'' \<and> key \<noteq> ''role_level''"
proof -
  from parse_prefixes_key [OF assms(1)]
  obtain p where p: "p \<in> set [[], ''not__'', ''chain__'', ''chain__not__'', ''or__'', ''or__not__'']"
    and key: "key = p @ l"
    unfolding set_map by (elim imageE)
  from empty_path_keys [rule_format, OF p empty_path_lookup [OF assms(2)]]
  show ?thesis unfolding key .
qed

lemma search_values_first_raises:
  "value_to_python E m key (PStr v) = Inl e \<Longrightarrow> search_values E m key (v # rest) sf = Inl e"
  by (simp add: search_value_def)

lemma process_param_bare_search:
  assumes "''__search'' \<notin> R"
  shows "process_param E m R (''__search'', v # vals) st
         = Inl (ParseError ''Query string field name not provided.'')"
proof -
  have sp: "fst (split_lookup ''__search'') = []" by code_simp
  have k: "\<not> startswith ''__search'' ''created''" "\<not> startswith ''__search'' ''hosts__name''"
    "\<not> endswith ''__search'' ''__int''" "endswith ''__search'' ''__search''"
    by (simp_all add: startswith_def endswith_def)
  have "(if str_in '','' v then concat (map (\<lambda>i. split i '','') (v # vals))
         else v # vals) \<noteq> []"
    by (simp add: Spec2Isabelle.split_def split_nonempty)
  then obtain t ts where ts: "(if str_in '','' v then concat (map (\<lambda>i. split i '','') (v # vals))
                          else v # vals) = t # ts"
    by (meson neq_Nil_conv)
  have "search_values E m ''__search'' (t # ts) sf
        = Inl (ParseError ''Query string field name not provided.'')" for sf
    by (rule search_values_first_raises) (rule value_to_python_empty [OF sp])
  with assms ts k show ?thesis
    by (simp add: process_param_def Let_def)
qed

lemma convert_value_routes:
  assumes "convert_value E m False q_chain q_or q_not k v st = Inr st1"
  shows "\<exists>v' k' d. value_to_python E m k (PStr v) = Inr (v', k', d)
           \<and> chain_filters st1 = chain_filters st @ (if q_chain then [(q_not, k', v')] else [])
           \<and> or_filters st1
               = or_filters st @ (if \<not> q_chain \<and> q_or then [(q_not, k', v')] else [])
           \<and> and_filters st1
               = and_filters st @ (if \<not> q_chain \<and> \<not> q_or then [(q_not, k', v')] else [])
           \<and> role_filters st1 = role_filters st
           \<and> search_filters st1 = search_filters st
           \<and> search_filter_relation st1 = search_filter_relation st"
  using assms
  by (auto simp: convert_value_def route_def split: sum.splits prod.splits)

lemma convert_values_routes:
  assumes "convert_values E m False q_chain q_or q_not k vals st = Inr st'"
  shows "\<exists>new. list_all2 (\<lambda>v t. \<exists>v' k' d. value_to_python E m k (PStr v) = Inr (v', k', d)
                                      \<and> t = (q_not, k', v')) vals new
           \<and> chain_filters st' = chain_filters st @ (if q_chain then new else [])
           \<and> or_filters st' = or_filters st @ (if \<not> q_chain \<and> q_or then new else [])
           \<and> and_filters st' = and_filters st @ (if \<not> q_chain \<and> \<not> q_or then new else [])
           \<and> role_filters st' = role_filters st
           \<and> search_filters st' = search_filters st
           \<and> search_filter_relation st' = search_filter_relation st"
  using assms
proof (induction vals arbitrary: st)
  case Nil
  then show ?case by simp
next
  case (Cons v vals)
  from Cons.prems obtain st1 where
    one: "convert_value E m False q_chain q_or q_not k v st = Inr st1"
    and more: "convert_values E m False q_chain q_or q_not k vals st1 = Inr st'"
    by (auto split: sum.splits)
  from convert_value_routes [OF one] obtain v' k' d where
    v: "value_to_python E m k (PStr v) = Inr (v', k', d)"
    and s1: "chain_filters st1 = chain_filters st @ (if q_chain then [(q_not, k', v')] else [])"
      "or_filters st1 = or_filters st @ (if \<not> q_chain \<and> q_or then [(q_not, k', v')] else [])"
      "and_filters st1
         = and_filters st @ (if \<not> q_chain \<and> \<not> q_or then [(q_not, k', v')] else [])"
      "role_filters st1 = role_filters st" "search_filters st1 = search_filters st"
      "search_filter_relation st1 = search_filter_relation st"
    by blast
  from Cons.IH [OF more] obtain new where
    n: "list_all2 (\<lambda>v t. \<exists>v' k' d. value_to_python E m k (PStr v) = Inr (v', k', d)
                                      \<and> t = (q_not, k', v')) vals new"
    and s2: "chain_filters st' = chain_filters st1 @ (if q_chain then new else [])"
      "or_filters st' = or_filters st1 @ (if \<not> q_chain \<and> q_or then new else [])"
      "and_filters st' = and_filters st1 @ (if \<not> q_chain \<and> \<not> q_or then new else [])"
      "role_filters st' = role_filters st1" "search_filters st' = search_filters st1"
      "search_filter_relation st' = search_filter_relation st1"
    by blast
  from v n have "list_all2 (\<lambda>v t. \<exists>v' k' d. value_to_python E m k (PStr v) = Inr (v', k', d)
                                      \<and> t = (q_not, k', v')) (v # vals) ((q_not, k', v') # new)"
    by simp
  moreover from s1 s2 have
    "chain_filters st' = chain_filters st @ (if q_chain then (q_not, k', v') # new else [])"
    "or_filters st' = or_filters st @ (if \<not> q_chain \<and> q_or then (q_not, k', v') # new else [])"
    "and_filters st' = and_filters st @ (if \<not> q_chain \<and> \<not> q_or then (q_not, k', v') # new else [])"
    "role_filters st' = role_filters st" "search_filters st' = search_filters st"
    "search_filter_relation st' = search_filter_relation st"
    by simp_all
  ultimately show ?case by blast
qed

lemma parse_prefixes_exclusive: "\<not> (fst (parse_prefixes k) \<and> fst (snd (parse_prefixes k)))"
  by (simp add: parse_prefixes_def Let_def)

lemma parse_prefixes_chain_not:
  "parse_prefixes (''chain__not__'' @ x) = (True, False, True, x)"
  by (simp add: parse_prefixes_def Let_def startswith_def)

lemma parse_prefixes_or_not:
  "parse_prefixes (''or__not__'' @ x) = (False, True, True, x)"
  by (simp add: parse_prefixes_def Let_def startswith_def)

lemma parse_prefixes_not_chain:
  "parse_prefixes (''not__chain__'' @ x) = (False, False, True, ''chain__'' @ x)"
  by (simp add: parse_prefixes_def Let_def startswith_def)

lemma parse_prefixes_not_or:
  "parse_prefixes (''not__or__'' @ x) = (False, False, True, ''or__'' @ x)"
  by (simp add: parse_prefixes_def Let_def startswith_def)































section \<open>Facts about the authentication model\<close>


lemma foldl_update_field:
  "foldl (update_field claims) current fs f =
     (if f \<in> set fs \<and> current f \<noteq> None \<and> claims f \<noteq> None then claims f else current f)"
proof (induction fs arbitrary: current)
  case Nil
  show ?case by simp
next
  case (Cons a fs)
  have "foldl (update_field claims) current (a # fs) f
        = foldl (update_field claims) (update_field claims current a) fs f"
    by simp
  also have "\<dots> = (if f \<in> set fs \<and> update_field claims current a f \<noteq> None \<and> claims f \<noteq> None
                   then claims f else update_field claims current a f)"
    by (rule Cons.IH)
  also have "\<dots> = (if f \<in> set (a # fs) \<and> current f \<noteq> None \<and> claims f \<noteq> None
                   then claims f else current f)"
    by (auto simp: update_field_def split: option.splits)
  finally show ?case .
qed

lemma no_difference_after_update:
  "\<not> field_differs (p\<lparr>user_fields := foldl (update_field claims) (user_fields p) fs, saves := n,
                       save_log := l\<rparr>) claims f"
  if "f \<in> set fs"
  using that by (auto simp: field_differs_def foldl_update_field split: option.splits)

section \<open>The operator suffix of a lookup\<close>

text \<open>
  C6. When the text after the last \<open>__\<close> of a lookup (the whole lookup, if it has no
  \<open>__\<close>) is not one of the supported lookup names, \<open>get_fields_from_lookup\<close> resolves
  the entire lookup as the field path and appends the operator \<open>exact\<close>. For every
  lookup the operator is either this default or the text after the last \<open>__\<close>: no
  other segment is read as an operator.
\<close>

theorem C6_unsupported_suffix_is_path:
  "(last (rsplit1 lookup ''__'') \<notin> set SUPPORTED_LOOKUPS \<longrightarrow>
      split_lookup lookup = (lookup, ''exact'')
      \<and> get_fields_from_lookup m lookup =
          (if lookup = [] then Inl (ParseError ''Query string field name not provided.'')
           else case get_fields_from_path m lookup TREAT_JSONFIELD_AS_TEXT of
                  Inl e \<Rightarrow> Inl e
                | Inr (field_list, new_path) \<Rightarrow> Inr (field_list, new_path @ ''__exact'')))
   \<and> (split_lookup lookup = (lookup, ''exact'')
      \<or> (lookup = fst (split_lookup lookup) @ ''__'' @ snd (split_lookup lookup)
          \<and> snd (split_lookup lookup) \<in> set SUPPORTED_LOOKUPS
          \<and> snd (split_lookup lookup) = last (rsplit1 lookup ''__'')))"
proof (intro conjI impI)
  assume unsupported: "last (rsplit1 lookup ''__'') \<notin> set SUPPORTED_LOOKUPS"
  then show whole: "split_lookup lookup = (lookup, ''exact'')"
    by (simp add: split_lookup_def)
  then show "get_fields_from_lookup m lookup =
          (if lookup = [] then Inl (ParseError ''Query string field name not provided.'')
           else case get_fields_from_path m lookup TREAT_JSONFIELD_AS_TEXT of
                  Inl e \<Rightarrow> Inl e
                | Inr (field_list, new_path) \<Rightarrow> Inr (field_list, new_path @ ''__exact''))"
    by (simp add: get_fields_from_lookup_def split: sum.splits prod.splits)
next
  show "split_lookup lookup = (lookup, ''exact'')
      \<or> (lookup = fst (split_lookup lookup) @ ''__'' @ snd (split_lookup lookup)
          \<and> snd (split_lookup lookup) \<in> set SUPPORTED_LOOKUPS
          \<and> snd (split_lookup lookup) = last (rsplit1 lookup ''__''))"
    by (rule split_lookup_cases)
qed

theorem C6_unsupported_suffix_is_path_witness:
  "last (rsplit1 ''organization__name'' ''__'') \<notin> set SUPPORTED_LOOKUPS
   \<and> split_lookup ''organization__name'' = (''organization__name'', ''exact'')
   \<and> map_sum id (\<lambda>(fl, l). (map name fl, l))
        (get_fields_from_lookup (example_model ''Team'') ''organization__name'')
      = Inr ([''organization'', ''name''], ''organization__name__exact'')"
proof -
  have h: "last (rsplit1 ''organization__name'' ''__'') \<notin> set SUPPORTED_LOOKUPS"
    by code_simp
  have r: "map_sum id (\<lambda>(fl, l). (map name fl, l))
        (get_fields_from_lookup (example_model ''Team'') ''organization__name'')
      = Inr ([''organization'', ''name''], ''organization__name__exact'')"
    by code_simp
  from C6_unsupported_suffix_is_path [of "''organization__name''" "example_model ''Team''"] h
  have "split_lookup ''organization__name'' = (''organization__name'', ''exact'')"
    by blast
  with h r show ?thesis by blast
qed

section \<open>Type names of polymorphic models\<close>

text \<open>
  C10. When the lookup that \<open>value_to_python\<close> resolved starts with
  \<open>polymorphic_ctype__model\<close>, the string value is returned with every underscore
  removed. On every other resolved lookup the value that comes back is the string
  itself, or what the boolean parser or the field's converter made of the string or of
  its comma-separated items: the backend removes no underscore there.
\<close>

theorem C10_polymorphic_value_without_underscores:
  assumes "is_ascii lookup"
    and "get_fields_from_lookup m lookup = Inr (field_list, new_lookup)"
    and "field_list \<noteq> []"
  shows "(startswith new_lookup ''polymorphic_ctype__model'' \<longrightarrow>
            (\<exists>d. value_to_python E m lookup (PStr s)
                   = Inr (VStr (filter (\<lambda>c. c \<noteq> CHR ''_'') s), Lookup new_lookup, d)))
         \<and> (\<not> startswith new_lookup ''polymorphic_ctype__model'' \<longrightarrow>
              (\<forall>v' k d. value_to_python E m lookup (PStr s) = Inr (v', k, d) \<longrightarrow>
                 v' = VStr s
                 \<or> to_python_boolean E (PStr s) = Inr v'
                 \<or> (\<exists>items. v' = VList items
                       \<and> convert_items E (last field_list) (split s '','') = Inr items)
                 \<or> value_to_python_for_field E (last field_list) (PStr s) = Inr v'))"
proof (intro conjI impI allI)
  assume "startswith new_lookup ''polymorphic_ctype__model''"
  with assms show "\<exists>d. value_to_python E m lookup (PStr s)
                   = Inr (VStr (filter (\<lambda>c. c \<noteq> CHR ''_'') s), Lookup new_lookup, d)"
    by (simp add: value_to_python_def replace_underscore)
next
  fix v' k d
  assume other: "\<not> startswith new_lookup ''polymorphic_ctype__model''"
    and res: "value_to_python E m lookup (PStr s) = Inr (v', k, d)"
  from res assms other show "v' = VStr s
                 \<or> to_python_boolean E (PStr s) = Inr v'
                 \<or> (\<exists>items. v' = VList items
                       \<and> convert_items E (last field_list) (split s '','') = Inr items)
                 \<or> value_to_python_for_field E (last field_list) (PStr s) = Inr v'"
    by (auto simp: value_to_python_def Let_def split: if_splits sum.splits option.splits)
qed

theorem C10_polymorphic_value_without_underscores_witness:
  "is_ascii ''polymorphic_ctype__model''
   \<and> get_fields_from_lookup (example_model ''UnifiedJob'') ''polymorphic_ctype__model''
       = Inr ([foreign_key ''polymorphic_ctype'' [''id'', ''app_label'', ''model''],
               char_field ''model''], ''polymorphic_ctype__model__exact'')
   \<and> startswith ''polymorphic_ctype__model__exact'' ''polymorphic_ctype__model''
   \<and> (\<exists>d. value_to_python example_env (example_model ''UnifiedJob'')
              ''polymorphic_ctype__model'' (PStr ''job_template'')
            = Inr (VStr ''jobtemplate'', Lookup ''polymorphic_ctype__model__exact'', d))
   \<and> is_ascii ''name''
   \<and> get_fields_from_lookup (example_model ''UnifiedJob'') ''name''
       = Inr ([char_field ''name''], ''name__exact'')
   \<and> \<not> startswith ''name__exact'' ''polymorphic_ctype__model''
   \<and> value_to_python example_env (example_model ''UnifiedJob'') ''name'' (PStr ''job_template'')
       = Inr (VStr ''job_template'', Lookup ''name__exact'', False)"
proof -
  let ?m = "example_model ''UnifiedJob''"
  have a1: "is_ascii ''polymorphic_ctype__model''" by (simp add: is_ascii_def)
  have a2: "get_fields_from_lookup ?m ''polymorphic_ctype__model''
       = Inr ([foreign_key ''polymorphic_ctype'' [''id'', ''app_label'', ''model''],
               char_field ''model''], ''polymorphic_ctype__model__exact'')"
    by (simp add: example_defs)
  have a3: "startswith ''polymorphic_ctype__model__exact'' ''polymorphic_ctype__model''"
    by (simp add: startswith_def)
  have b1: "is_ascii ''name''" by (simp add: is_ascii_def)
  have b2: "get_fields_from_lookup ?m ''name'' = Inr ([char_field ''name''], ''name__exact'')"
    by (simp add: example_defs)
  have b3: "\<not> startswith ''name__exact'' ''polymorphic_ctype__model''"
    by (simp add: startswith_def)
  have b4: "value_to_python example_env ?m ''name'' (PStr ''job_template'')
       = Inr (VStr ''job_template'', Lookup ''name__exact'', False)"
    by (simp add: value_to_python_def b1 b2 b3 endswith_def value_to_python_for_field_def
        char_field_def NO_DUPLICATES_ALLOW_LIST_def TREAT_JSONFIELD_AS_TEXT_def)
  from C10_polymorphic_value_without_underscores
         [OF a1 a2, of example_env "''job_template''"] a3
  have a4: "\<exists>d. value_to_python example_env ?m ''polymorphic_ctype__model'' (PStr ''job_template'')
            = Inr (VStr ''jobtemplate'', Lookup ''polymorphic_ctype__model__exact'', d)"
    by simp
  from C10_polymorphic_value_without_underscores
         [OF b1 b2, of example_env "''job_template''"] b3 b4
  have "VStr ''job_template'' = VStr ''job_template''
        \<or> to_python_boolean example_env (PStr ''job_template'') = Inr (VStr ''job_template'')
        \<or> (\<exists>items. VStr ''job_template'' = VList items
              \<and> convert_items example_env (last [char_field ''name'']) (split ''job_template'' '','')
                  = Inr items)
        \<or> value_to_python_for_field example_env (last [char_field ''name'']) (PStr ''job_template'')
            = Inr (VStr ''job_template'')"
    by simp
  with a1 a2 a3 a4 b1 b2 b3 b4 show ?thesis by blast
qed

section \<open>The \<open>__in\<close> lookup\<close>

text \<open>
  C5 (as amended). For an \<open>__in\<close> filter whose resolved lookup does not start with
  \<open>polymorphic_ctype__model\<close>: the empty string raises \<open>ValueError\<close> in
  \<open>value_to_python\<close>, and a request whose parameter has the empty string as first value
  ends in the parse error \<open>cannot provide empty value for __in\<close>; a non-empty string
  is split on commas and every item is converted by \<open>value_to_python_for_field\<close> for
  the last field of the resolved chain, the first failing item failing the conversion.
\<close>

theorem C5_in_filter:
  assumes "path \<noteq> []" and "is_ascii (path @ ''__in'')"
    and "get_fields_from_path (model qs) path TREAT_JSONFIELD_AS_TEXT = Inr (field_list, new_path)"
    and "field_list \<noteq> []"
    and "\<not> startswith (new_path @ ''__in'') ''polymorphic_ctype__model''"
  shows "value_to_python E (model qs) (path @ ''__in'') (PStr [])
           = Inl (ValueError ''cannot provide empty value for __in'')
         \<and> (s \<noteq> [] \<longrightarrow>
              value_to_python E (model qs) (path @ ''__in'') (PStr s) =
                (case convert_items E (last field_list) (split s '','') of
                   Inl e \<Rightarrow> Inl e
                 | Inr items \<Rightarrow>
                     Inr (VList items, Lookup (new_path @ ''__in''),
                          \<not> list_all (\<lambda>f. kind f \<in> set NO_DUPLICATES_ALLOW_LIST) field_list)))
         \<and> (\<forall>items. convert_items E (last field_list) (split s '','') = Inr items
               \<longleftrightarrow> list_all2 (\<lambda>item v. value_to_python_for_field E (last field_list) (PStr item) = Inr v)
                     (split s '','') items)
         \<and> (parse_prefixes key = (q_chain, q_or, q_not, path @ ''__in'')
              \<and> key \<notin> reserved_names E vw
              \<and> \<not> (object_name (model qs) = ''User'' \<and> startswith key ''created'')
              \<and> \<not> (object_name (model qs) = ''JobEvent'' \<and> startswith key ''hosts__name'')
              \<and> query_params req = ps1 @ (key, [] # vals) # ps2
              \<and> loop E (model qs) (reserved_names E vw) ps1 (initial_state (ops qs)) = Inr st1
              \<longrightarrow> filter_queryset E req qs vw
                    = Inl (ParseError ''cannot provide empty value for __in''))"
proof (intro conjI impI allI)
  note v = value_to_python_in [OF assms, of E]
  show empty: "value_to_python E (model qs) (path @ ''__in'') (PStr [])
           = Inl (ValueError ''cannot provide empty value for __in'')"
    by (simp add: v)
  show "value_to_python E (model qs) (path @ ''__in'') (PStr s) =
                (case convert_items E (last field_list) (split s '','') of
                   Inl e \<Rightarrow> Inl e
                 | Inr items \<Rightarrow>
                     Inr (VList items, Lookup (new_path @ ''__in''),
                          \<not> list_all (\<lambda>f. kind f \<in> set NO_DUPLICATES_ALLOW_LIST) field_list))"
    if "s \<noteq> []"
    using that by (simp add: v)
  show "convert_items E (last field_list) (split s '','') = Inr items
               \<longleftrightarrow> list_all2 (\<lambda>item v. value_to_python_for_field E (last field_list) (PStr item) = Inr v)
                     (split s '','') items" for items
    by (rule convert_items_list_all2)
  assume req: "parse_prefixes key = (q_chain, q_or, q_not, path @ ''__in'')
              \<and> key \<notin> reserved_names E vw
              \<and> \<not> (object_name (model qs) = ''User'' \<and> startswith key ''created'')
              \<and> \<not> (object_name (model qs) = ''JobEvent'' \<and> startswith key ''hosts__name'')
              \<and> query_params req = ps1 @ (key, [] # vals) # ps2
              \<and> loop E (model qs) (reserved_names E vw) ps1 (initial_state (ops qs)) = Inr st1"
  then have pp: "parse_prefixes key = (q_chain, q_or, q_not, path @ ''__in'')" by simp
  have "process_param E (model qs) (reserved_names E vw) (key, [] # vals) st1
        = convert_values E (model qs) False q_chain q_or q_not (path @ ''__in'') ([] # vals) st1"
    using req in_key_facts [OF pp] by (intro process_param_plain) simp_all
  also have "\<dots> = Inl (ValueError ''cannot provide empty value for __in'')"
    using empty by (rule convert_values_first_raises)
  finally have pr: "process_param E (model qs) (reserved_names E vw) (key, [] # vals) st1
        = Inl (ValueError ''cannot provide empty value for __in'')" .
  from req have qp: "query_params req = ps1 @ (key, [] # vals) # ps2"
    and lp: "loop E (model qs) (reserved_names E vw) ps1 (initial_state (ops qs)) = Inr st1"
    by simp_all
  have "filter_queryset E req qs vw
        = Inl (handle_exn E (ValueError ''cannot provide empty value for __in''))"
    using qp lp pr by (rule filter_queryset_raises)
  then show "filter_queryset E req qs vw = Inl (ParseError ''cannot provide empty value for __in'')"
    by simp
qed

theorem C5_in_filter_witness:
  "''count'' \<noteq> [] \<and> is_ascii (''count'' @ ''__in'')
   \<and> get_fields_from_path (example_model ''Team'') ''count'' TREAT_JSONFIELD_AS_TEXT
       = Inr ([integer_field ''count''], ''count'')
   \<and> \<not> startswith (''count'' @ ''__in'') ''polymorphic_ctype__model''
   \<and> value_to_python example_env (example_model ''Team'') ''count__in'' (PStr ''1,2,3'')
       = Inr (VList [VInt 1, VInt 2, VInt 3], Lookup ''count__in'', False)
   \<and> value_to_python example_env (example_model ''Team'') ''count__in'' (PStr [])
       = Inl (ValueError ''cannot provide empty value for __in'')
   \<and> parse_prefixes ''count__in'' = (False, False, False, ''count__in'')
   \<and> ''count__in'' \<notin> reserved_names example_env \<lparr>rest_filters_reserved_names = None\<rparr>
   \<and> filter_queryset example_env \<lparr>query_params = [(''count__in'', [[]])], user = ''alice''\<rparr>
         \<lparr>model = example_model ''Team'', ops = []\<rparr> \<lparr>rest_filters_reserved_names = None\<rparr>
       = Inl (ParseError ''cannot provide empty value for __in'')"
proof -
  let ?qs = "\<lparr>model = example_model ''Team'', ops = []\<rparr>"
  let ?vw = "\<lparr>rest_filters_reserved_names = None\<rparr>"
  let ?req = "\<lparr>query_params = [(''count__in'', [[]])], user = ''alice''\<rparr>"
  have h1: "''count'' \<noteq> []" by simp
  have h2: "is_ascii (''count'' @ ''__in'')" by (simp add: is_ascii_def)
  have h3: "get_fields_from_path (model ?qs) ''count'' TREAT_JSONFIELD_AS_TEXT
       = Inr ([integer_field ''count''], ''count'')"
    by (simp add: example_defs)
  have h4: "[integer_field ''count''] \<noteq> []" by simp
  have h5: "\<not> startswith (''count'' @ ''__in'') ''polymorphic_ctype__model''"
    by (simp add: startswith_def)
  have c: "convert_items example_env (last [integer_field ''count'']) (split ''1,2,3'' '','')
           = Inr [VInt 1, VInt 2, VInt 3]"
    by code_simp
  have nd: "list_all (\<lambda>f. kind f \<in> set NO_DUPLICATES_ALLOW_LIST) [integer_field ''count'']"
    by code_simp
  have p: "parse_prefixes ''count__in'' = (False, False, False, ''count__in'')"
    by code_simp
  have r: "''count__in'' \<notin> reserved_names example_env ?vw"
    by code_simp
  have u: "\<not> startswith ''count__in'' ''created''" "\<not> startswith ''count__in'' ''hosts__name''"
    by (simp_all add: startswith_def)
  have l: "loop example_env (model ?qs) (reserved_names example_env ?vw) [] (initial_state (ops ?qs))
           = Inr (initial_state (ops ?qs))"
    by simp
  have q: "query_params ?req = [] @ (''count__in'', [] # []) # []" by simp
  note inst = C5_in_filter [OF h1 h2 h3 h4 h5, of example_env "''1,2,3''" "''count__in''" False False
      False ?vw ?req "[]" "[]" "[]" "initial_state (ops ?qs)"]
  from inst [THEN conjunct1] have e: "value_to_python example_env (example_model ''Team'') ''count__in'' (PStr [])
       = Inl (ValueError ''cannot provide empty value for __in'')"
    by simp
  from inst [THEN conjunct2, THEN conjunct1] c nd have v: "value_to_python example_env (example_model ''Team'') ''count__in''
        (PStr ''1,2,3'') = Inr (VList [VInt 1, VInt 2, VInt 3], Lookup ''count__in'', False)"
    by simp
  from inst [THEN conjunct2, THEN conjunct2, THEN conjunct2] p r u l q have f: "filter_queryset example_env ?req ?qs ?vw
       = Inl (ParseError ''cannot provide empty value for __in'')"
    by simp
  from h1 h2 h3 h5 e v p r f show ?thesis by simp
qed

theorem C5_polymorphic_in_counterexample:
  "map_sum id ops
     (filter_queryset example_env
        \<lparr>query_params = [(''polymorphic_ctype__model__in'', [[]])], user = ''alice''\<rparr>
        \<lparr>model = example_model ''UnifiedJob'', ops = []\<rparr> \<lparr>rest_filters_reserved_names = None\<rparr>)
   = Inr [Filter [Q_leaf ''polymorphic_ctype__model__in'' (VStr [])], Distinct]
   \<and> map_sum id ops
     (filter_queryset example_env
        \<lparr>query_params = [(''polymorphic_ctype__model__in'', [''job_template,project''])],
         user = ''alice''\<rparr>
        \<lparr>model = example_model ''UnifiedJob'', ops = []\<rparr> \<lparr>rest_filters_reserved_names = None\<rparr>)
   = Inr [Filter [Q_leaf ''polymorphic_ctype__model__in'' (VStr ''jobtemplate,project'')], Distinct]"
  by code_simp

section \<open>Lookups without a field name\<close>

text \<open>
  C9 (as amended). Take a parameter with at least one value whose key is not reserved
  and reduces to an empty field path: stripping \<open>chain__\<close> or \<open>or__\<close>, then
  \<open>not__\<close>, and cutting the operator suffix leaves nothing. Unless the key is a
  prefixed key ending in \<open>__search\<close> (a search key keeps its prefixes), and when
  the parameters before it raise nothing, \<open>filter_queryset\<close> raises the parse error
  \<open>Query string field name not provided.\<close>; \<open>get_fields_from_lookup\<close> gives this
  error for every model, so the resolver is not consulted.
\<close>

theorem C9_empty_field_path:
  assumes "parse_prefixes key = (q_chain, q_or, q_not, lookup)"
    and "fst (split_lookup lookup) = []"
    and "endswith key ''__search'' \<longrightarrow> key = ''__search''"
    and "key \<notin> reserved_names E vw"
    and "query_params req = ps1 @ (key, v # vals) # ps2"
    and "loop E (model qs) (reserved_names E vw) ps1 (initial_state (ops qs)) = Inr st1"
  shows "filter_queryset E req qs vw = Inl (ParseError ''Query string field name not provided.'')
         \<and> (\<forall>m. get_fields_from_lookup m lookup
                    = Inl (ParseError ''Query string field name not provided.''))"
proof
  have "process_param E (model qs) (reserved_names E vw) (key, v # vals) st1
        = Inl (ParseError ''Query string field name not provided.'')"
  proof (cases "endswith key ''__search''")
    case True
    with assms(3) have "key = ''__search''" by simp
    with assms(4) show ?thesis by (simp add: process_param_bare_search)
  next
    case False
    note f = empty_path_key_facts [OF assms(1,2)]
    have "process_param E (model qs) (reserved_names E vw) (key, v # vals) st1
          = convert_values E (model qs) False q_chain q_or q_not lookup (v # vals) st1"
      using assms(4) f False assms(1) by (intro process_param_plain) simp_all
    also have "\<dots> = Inl (ParseError ''Query string field name not provided.'')"
      by (rule convert_values_first_raises) (rule value_to_python_empty [OF assms(2)])
    finally show ?thesis .
  qed
  with assms(5,6) have "filter_queryset E req qs vw
      = Inl (handle_exn E (ParseError ''Query string field name not provided.''))"
    by (rule filter_queryset_raises)
  then show "filter_queryset E req qs vw
      = Inl (ParseError ''Query string field name not provided.'')"
    by simp
  show "\<forall>m. get_fields_from_lookup m lookup
                    = Inl (ParseError ''Query string field name not provided.'')"
    using assms(2) by (simp add: get_fields_from_lookup_empty)
qed

theorem C9_empty_field_path_witness:
  "parse_prefixes ''chain__not____in'' = (True, False, True, ''__in'')
   \<and> fst (split_lookup ''__in'') = []
   \<and> \<not> endswith ''chain__not____in'' ''__search''
   \<and> ''chain__not____in'' \<notin> reserved_names example_env \<lparr>rest_filters_reserved_names = None\<rparr>
   \<and> filter_queryset example_env
        \<lparr>query_params = [(''chain__not____in'', [''1,2''])], user = ''alice''\<rparr>
        \<lparr>model = example_model ''Team'', ops = []\<rparr> \<lparr>rest_filters_reserved_names = None\<rparr>
      = Inl (ParseError ''Query string field name not provided.'')"
proof -
  let ?qs = "\<lparr>model = example_model ''Team'', ops = []\<rparr>"
  let ?vw = "\<lparr>rest_filters_reserved_names = None\<rparr>"
  let ?req = "\<lparr>query_params = [(''chain__not____in'', [''1,2''])], user = ''alice''\<rparr>"
  have h1: "parse_prefixes ''chain__not____in'' = (True, False, True, ''__in'')" by code_simp
  have h2: "fst (split_lookup ''__in'') = []" by code_simp
  have h3': "\<not> endswith ''chain__not____in'' ''__search''" by code_simp
  then have h3: "endswith ''chain__not____in'' ''__search'' \<longrightarrow> ''chain__not____in'' = ''__search''"
    by blast
  have h4: "''chain__not____in'' \<notin> reserved_names example_env ?vw" by code_simp
  have h5: "query_params ?req = [] @ (''chain__not____in'', ''1,2'' # []) # []" by simp
  have h6: "loop example_env (model ?qs) (reserved_names example_env ?vw) []
              (initial_state (ops ?qs)) = Inr (initial_state (ops ?qs))"
    by simp
  from C9_empty_field_path [OF h1 h2 h3 h4 h5 h6] h1 h2 h3' h4 show ?thesis by blast
qed

theorem C9_prefixed_search_counterexample:
  "parse_prefixes ''chain____search'' = (True, False, False, ''__search'')
   \<and> fst (split_lookup ''__search'') = []
   \<and> ''chain____search'' \<notin> reserved_names example_env \<lparr>rest_filters_reserved_names = None\<rparr>
   \<and> map_sum id ops
       (filter_queryset example_env
          \<lparr>query_params = [(''chain____search'', [''x''])], user = ''alice''\<rparr>
          \<lparr>model = example_model ''Team'', ops = []\<rparr> \<lparr>rest_filters_reserved_names = None\<rparr>)
      = Inl (ParseError ''Team has no field named chain__'')"
  by code_simp

section \<open>The prefixes \<open>chain__\<close>, \<open>or__\<close> and \<open>not__\<close>\<close>

text \<open>
  C3 (as amended). The prefixes are read in one order: \<open>chain__\<close> or \<open>or__\<close> first
  (never both), \<open>not__\<close> after it. For a key \<open>chain__not__x\<close> (or \<open>or__not__x\<close>)
  that is not reserved and ends neither in \<open>__int\<close> nor in \<open>__search\<close>, a round of
  the loop that raises nothing resolves \<open>x\<close> for every value and appends the triples
  \<open>(True, path, value)\<close> to the chain list (to the OR list), leaving the other lists
  as they were. In the order \<open>not__chain__x\<close> only \<open>not__\<close> is recognised, and
  \<open>chain__x\<close> is what is resolved.
\<close>

theorem C3_prefixes_before_not:
  assumes "key = (if ch then ''chain__'' else ''or__'') @ ''not__'' @ x"
    and "key \<notin> R" and "\<not> endswith key ''__int''" and "\<not> endswith key ''__search''"
    and "process_param E m R (key, vals) st = Inr st'"
  shows "(\<exists>new. list_all2 (\<lambda>v t. \<exists>v' k' d. value_to_python E m x (PStr v) = Inr (v', k', d)
                                       \<and> t = (True, k', v')) vals new
            \<and> chain_filters st' = chain_filters st @ (if ch then new else [])
            \<and> or_filters st' = or_filters st @ (if ch then [] else new)
            \<and> and_filters st' = and_filters st)
         \<and> (\<forall>k. \<not> (fst (parse_prefixes k) \<and> fst (snd (parse_prefixes k))))
         \<and> (\<forall>y. parse_prefixes (''not__chain__'' @ y) = (False, False, True, ''chain__'' @ y)
                \<and> parse_prefixes (''not__or__'' @ y) = (False, False, True, ''or__'' @ y))"
proof (intro conjI allI)
  have pp: "parse_prefixes key = (ch, \<not> ch, True, x)"
    using assms(1) parse_prefixes_chain_not [of x] parse_prefixes_or_not [of x]
    by (cases ch) simp_all
  have k: "\<not> (object_name m = ''User'' \<and> startswith key ''created'')"
    "\<not> (object_name m = ''JobEvent'' \<and> startswith key ''hosts__name'')"
    "key \<noteq> ''role_level''"
    using assms(1) by (cases ch; simp add: startswith_def)+
  have "process_param E m R (key, vals) st = convert_values E m False ch (\<not> ch) True x vals st"
    using assms(2) k(1,2) assms(3) k(3) assms(4) pp by (rule process_param_plain)
  with assms(5) have "convert_values E m False ch (\<not> ch) True x vals st = Inr st'"
    by simp
  from convert_values_routes [OF this]
  show "\<exists>new. list_all2 (\<lambda>v t. \<exists>v' k' d. value_to_python E m x (PStr v) = Inr (v', k', d)
                                       \<and> t = (True, k', v')) vals new
            \<and> chain_filters st' = chain_filters st @ (if ch then new else [])
            \<and> or_filters st' = or_filters st @ (if ch then [] else new)
            \<and> and_filters st' = and_filters st"
    by (cases ch) auto
  show "\<not> (fst (parse_prefixes k) \<and> fst (snd (parse_prefixes k)))" for k
    by (rule parse_prefixes_exclusive)
  show "parse_prefixes (''not__chain__'' @ y) = (False, False, True, ''chain__'' @ y)" for y
    by (rule parse_prefixes_not_chain)
  show "parse_prefixes (''not__or__'' @ y) = (False, False, True, ''or__'' @ y)" for y
    by (rule parse_prefixes_not_or)
qed

theorem C3_not_before_chain_counterexample:
  "map_sum id and_filters
     (loop example_env (example_model ''Team'')
        (reserved_names example_env \<lparr>rest_filters_reserved_names = None\<rparr>)
        [(''not__chain__name'', [''bob''])] (initial_state []))
   = Inr [(True, Lookup ''chain__name__exact'', VStr ''bob'')]
   \<and> map_sum id chain_filters
     (loop example_env (example_model ''Team'')
        (reserved_names example_env \<lparr>rest_filters_reserved_names = None\<rparr>)
        [(''not__chain__name'', [''bob''])] (initial_state []))
   = Inr []
   \<and> map_sum id chain_filters
     (loop example_env (example_model ''Team'')
        (reserved_names example_env \<lparr>rest_filters_reserved_names = None\<rparr>)
        [(''chain__not__name'', [''bob''])] (initial_state []))
   = Inr [(True, Lookup ''name__exact'', VStr ''bob'')]
   \<and> map_sum id or_filters
     (loop example_env (example_model ''Team'')
        (reserved_names example_env \<lparr>rest_filters_reserved_names = None\<rparr>)
        [(''not__or__name'', [''bob''])] (initial_state []))
   = Inl (FieldDoesNotExist ''Team has no field named or__name'')"
  by code_simp

theorem C3_prefixes_before_not_witness:
  "''chain__not__name'' = (if True then ''chain__'' else ''or__'') @ ''not__'' @ ''name''
   \<and> ''chain__not__name'' \<notin> reserved_names example_env \<lparr>rest_filters_reserved_names = None\<rparr>
   \<and> \<not> endswith ''chain__not__name'' ''__int''
   \<and> \<not> endswith ''chain__not__name'' ''__search''
   \<and> map_sum id chain_filters
        (process_param example_env (example_model ''Team'')
           (reserved_names example_env \<lparr>rest_filters_reserved_names = None\<rparr>)
           (''chain__not__name'', [''bob'']) (initial_state []))
      = Inr [(True, Lookup ''name__exact'', VStr ''bob'')]
   \<and> (\<exists>st' new.
         process_param example_env (example_model ''Team'')
           (reserved_names example_env \<lparr>rest_filters_reserved_names = None\<rparr>)
           (''chain__not__name'', [''bob'']) (initial_state []) = Inr st'
         \<and> list_all2 (\<lambda>v t. \<exists>v' k' d.
               value_to_python example_env (example_model ''Team'') ''name'' (PStr v)
                 = Inr (v', k', d) \<and> t = (True, k', v')) [''bob''] new
         \<and> chain_filters st' = chain_filters (initial_state []) @ new
         \<and> or_filters st' = or_filters (initial_state [])
         \<and> and_filters st' = and_filters (initial_state []))"
proof -
  let ?R = "reserved_names example_env \<lparr>rest_filters_reserved_names = None\<rparr>"
  let ?m = "example_model ''Team''"
  have h1: "''chain__not__name'' = (if True then ''chain__'' else ''or__'') @ ''not__'' @ ''name''"
    by simp
  have h2: "''chain__not__name'' \<notin> ?R" by code_simp
  have h3: "\<not> endswith ''chain__not__name'' ''__int''" by code_simp
  have h4: "\<not> endswith ''chain__not__name'' ''__search''" by code_simp
  have c: "map_sum id chain_filters
        (process_param example_env ?m ?R (''chain__not__name'', [''bob'']) (initial_state []))
      = Inr [(True, Lookup ''name__exact'', VStr ''bob'')]"
    by code_simp
  then obtain st' where
    h5: "process_param example_env ?m ?R (''chain__not__name'', [''bob'']) (initial_state []) = Inr st'"
    by (cases "process_param example_env ?m ?R (''chain__not__name'', [''bob'']) (initial_state [])")
      auto
  from C3_prefixes_before_not [OF h1 h2 h3 h4 h5]
  obtain new where "list_all2 (\<lambda>v t. \<exists>v' k' d.
               value_to_python example_env ?m ''name'' (PStr v)
                 = Inr (v', k', d) \<and> t = (True, k', v')) [''bob''] new
         \<and> chain_filters st' = chain_filters (initial_state []) @ new
         \<and> or_filters st' = or_filters (initial_state [])
         \<and> and_filters st' = and_filters (initial_state [])"
    by auto
  with h5 have "\<exists>st' new.
         process_param example_env ?m ?R (''chain__not__name'', [''bob'']) (initial_state []) = Inr st'
         \<and> list_all2 (\<lambda>v t. \<exists>v' k' d.
               value_to_python example_env ?m ''name'' (PStr v)
                 = Inr (v', k', d) \<and> t = (True, k', v')) [''bob''] new
         \<and> chain_filters st' = chain_filters (initial_state []) @ new
         \<and> or_filters st' = or_filters (initial_state [])
         \<and> and_filters st' = and_filters (initial_state [])"
    by blast
  with h1 h2 h3 h4 c show ?thesis by blast
qed

section \<open>The object name of the model\<close>




section \<open>The \<open>role_level\<close> filter\<close>





section \<open>Search across related objects\<close>




section \<open>The key resolution protocol\<close>




section \<open>Mapping claims onto the user\<close>

text \<open>
  C7. If some mapped field present in both the user and the claims differs,
  \<open>map_user_fields\<close> persists the user exactly once, and afterwards every mapped field
  present in both has the value of the claim. If none differs the user comes back as it
  was, with no persistence call. Mapping the same claims a second time changes nothing.
\<close>

theorem C7_map_user_fields:
  "(list_ex (field_differs p claims) fs \<longrightarrow>
      saves (map_user_fields fs username p claims) = saves p + 1
      \<and> (\<forall>f \<in> set fs. \<forall>current claimed.
            user_fields p f = Some current \<and> claims f = Some claimed \<longrightarrow>
            user_fields (map_user_fields fs username p claims) f = Some claimed))
   \<and> (\<not> list_ex (field_differs p claims) fs \<longrightarrow> map_user_fields fs username p claims = p)
   \<and> map_user_fields fs username (map_user_fields fs username p claims) claims
      = map_user_fields fs username p claims"
proof (intro conjI impI ballI allI)
  assume d: "list_ex (field_differs p claims) fs"
  then show "saves (map_user_fields fs username p claims) = saves p + 1"
    by (simp add: map_user_fields_def)
  fix f current claimed
  assume "f \<in> set fs" and "user_fields p f = Some current \<and> claims f = Some claimed"
  with d show "user_fields (map_user_fields fs username p claims) f = Some claimed"
    by (simp add: map_user_fields_def foldl_update_field)
next
  assume "\<not> list_ex (field_differs p claims) fs"
  then show "map_user_fields fs username p claims = p"
    by (simp add: map_user_fields_def)
next
  show "map_user_fields fs username (map_user_fields fs username p claims) claims
        = map_user_fields fs username p claims"
  proof (cases "list_ex (field_differs p claims) fs")
    case True
    have "\<not> list_ex (field_differs (map_user_fields fs username p claims) claims) fs"
      unfolding list_ex_iff using True no_difference_after_update
      by (simp add: map_user_fields_def)
    then show ?thesis by (simp add: map_user_fields_def [of fs username "map_user_fields fs username p claims"])
  next
    case False
    then show ?thesis by (simp add: map_user_fields_def)
  qed
qed

theorem C7_map_user_fields_witness:
  "list_ex (field_differs
       \<lparr>user_fields = [''first_name'' \<mapsto> ''Cindy'', ''last_name'' \<mapsto> ''Liu''], saves = 0,
        save_log = []\<rparr>
       [''first_name'' \<mapsto> ''Cindy'', ''last_name'' \<mapsto> ''Lou''])
     [''first_name'', ''last_name'']
   \<and> saves (map_user_fields [''first_name'', ''last_name''] ''Bob''
        \<lparr>user_fields = [''first_name'' \<mapsto> ''Cindy'', ''last_name'' \<mapsto> ''Liu''], saves = 0,
         save_log = []\<rparr>
        [''first_name'' \<mapsto> ''Cindy'', ''last_name'' \<mapsto> ''Lou'']) = 1
   \<and> user_fields (map_user_fields [''first_name'', ''last_name''] ''Bob''
        \<lparr>user_fields = [''first_name'' \<mapsto> ''Cindy'', ''last_name'' \<mapsto> ''Liu''], saves = 0,
         save_log = []\<rparr>
        [''first_name'' \<mapsto> ''Cindy'', ''last_name'' \<mapsto> ''Lou'']) ''last_name'' = Some ''Lou''
   \<and> \<not> list_ex (field_differs
       \<lparr>user_fields = [''first_name'' \<mapsto> ''Cindy'', ''last_name'' \<mapsto> ''Lou'', ''email'' \<mapsto> ''test''],
        saves = 0, save_log = []\<rparr>
       [''first_name'' \<mapsto> ''Cindy'', ''last_name'' \<mapsto> ''Lou''])
     [''first_name'', ''last_name'']
   \<and> saves (map_user_fields [''first_name'', ''last_name''] ''Bob''
        \<lparr>user_fields = [''first_name'' \<mapsto> ''Cindy'', ''last_name'' \<mapsto> ''Lou'', ''email'' \<mapsto> ''test''],
         saves = 0, save_log = []\<rparr>
        [''first_name'' \<mapsto> ''Cindy'', ''last_name'' \<mapsto> ''Lou'']) = 0"
proof -
  let ?old = "\<lparr>user_fields = [''first_name'' \<mapsto> ''Cindy'', ''last_name'' \<mapsto> ''Liu''], saves = 0,
        save_log = []\<rparr>"
  let ?same = "\<lparr>user_fields = [''first_name'' \<mapsto> ''Cindy'', ''last_name'' \<mapsto> ''Lou'',
                               ''email'' \<mapsto> ''test''], saves = 0, save_log = []\<rparr>"
  let ?claims = "[''first_name'' \<mapsto> ''Cindy'', ''last_name'' \<mapsto> ''Lou'']"
  let ?fs = "[''first_name'', ''last_name'']"
  have d: "list_ex (field_differs ?old ?claims) ?fs"
    by (simp add: field_differs_def)
  have n: "\<not> list_ex (field_differs ?same ?claims) ?fs"
    by (simp add: field_differs_def)
  have m: "''last_name'' \<in> set ?fs" by simp
  have u: "user_fields ?old ''last_name'' = Some ''Liu'' \<and> ?claims ''last_name'' = Some ''Lou''"
    by simp
  note t1 = C7_map_user_fields [of ?old ?claims ?fs "''Bob''", THEN conjunct1, rule_format, OF d]
  from t1 have a: "saves (map_user_fields ?fs ''Bob'' ?old ?claims) = 1" by simp
  from t1 [THEN conjunct2, rule_format, OF m u]
  have b: "user_fields (map_user_fields ?fs ''Bob'' ?old ?claims) ''last_name'' = Some ''Lou''" .
  from C7_map_user_fields [of ?same ?claims ?fs "''Bob''", THEN conjunct2, THEN conjunct1,
      rule_format, OF n]
  have c: "saves (map_user_fields ?fs ''Bob'' ?same ?claims) = 0" by simp
  from d a b n c show ?thesis by blast
qed

end
